theory Spec2Isabelle
  imports Main "HOL-Library.AList" "HOL-Library.Sublist"
begin

text \<open>
  A model of the transparent OpenAI API proxy (\<open>main.go\<close>): the recorder
  (\<open>RequestLogger\<close>, \<open>LogRequest\<close>, \<open>LogResponse\<close>) and the relay handler
  (\<open>ServeHTTP\<close>). The functions are pure: what the handler writes to its log sinks, to
  the upstream and to the client is state that is passed in and returned, and what it
  reads from its surroundings (the clock, the upstream, the bodies) is a parameter. The
  functions of the Go library that the code calls are modelled after their documented
  behaviour, under the names they have in Go.
\<close>

section \<open>Strings and formatting (Go's strings and fmt packages)\<close>

text \<open>
  A Go string or byte slice is a \<^typ>\<open>string\<close>: a list of bytes. Header names are
  HTTP tokens, hence ASCII; on ASCII \<open>strings.ToLower\<close> lowers the letters A to Z and
  leaves every other byte alone, which is what \<open>toLower_byte\<close> does (the byte
  arithmetic of the library is written as a table of the 26 letters).
\<close>

definition upper_letters :: string where
  "upper_letters = ''ABCDEFGHIJKLMNOPQRSTUVWXYZ''"

definition lower_letters :: string where
  "lower_letters = ''abcdefghijklmnopqrstuvwxyz''"

definition is_upper :: "char \<Rightarrow> bool" where
  "is_upper c = (c \<in> set upper_letters)"

definition is_lower :: "char \<Rightarrow> bool" where
  "is_lower c = (c \<in> set lower_letters)"

definition is_digit :: "char \<Rightarrow> bool" where
  "is_digit c = (c \<in> set ''0123456789'')"

definition toLower_byte :: "char \<Rightarrow> char" where
  "toLower_byte c =
     (case map_of (zip upper_letters lower_letters) c of Some l \<Rightarrow> l | None \<Rightarrow> c)"

definition toUpper_byte :: "char \<Rightarrow> char" where
  "toUpper_byte c =
     (case map_of (zip lower_letters upper_letters) c of Some u \<Rightarrow> u | None \<Rightarrow> c)"

definition strings_ToLower :: "string \<Rightarrow> string" where
  "strings_ToLower s = map toLower_byte s"

text \<open>\<open>strings.Contains(s, substr)\<close>: \<open>substr\<close> occurs in \<open>s\<close> as a contiguous run.\<close>

fun strings_Contains :: "string \<Rightarrow> string \<Rightarrow> bool" where
  "strings_Contains [] sub = (sub = [])"
| "strings_Contains (c # s) sub = (prefix sub (c # s) \<or> strings_Contains s sub)"

definition nl :: string where
  "nl = [CHR 0x0A]"

text \<open>The verb \<open>%d\<close> of fmt on an integer: decimal digits, with a minus sign when negative.\<close>

definition digit_char :: "nat \<Rightarrow> char" where
  "digit_char d = ''0123456789'' ! d"

function digits :: "nat \<Rightarrow> string" where
  "digits n = (if n < 10 then [digit_char n] else digits (n div 10) @ [digit_char (n mod 10)])"
  by pat_completeness auto
termination
  by (relation "measure (\<lambda>n. n)") auto

declare digits.simps [simp del]

definition fmt_d :: "int \<Rightarrow> string" where
  "fmt_d i = (if i < 0 then CHR ''-'' # digits (nat (- i)) else digits (nat i))"

section \<open>HTTP headers (net/http.Header)\<close>

text \<open>
  \<open>http.Header\<close> is \<open>map[string][]string\<close>. The code ranges over it, so the model is an
  association list taken in one iteration order (Go leaves that order unspecified, and a
  statement that holds for every list holds for every order). Lookups go through
  \<^const>\<open>map_of\<close>, stores through \<^const>\<open>AList.update\<close>.
\<close>

type_synonym header = "(string \<times> string list) list"

text \<open>
  \<open>textproto.CanonicalMIMEHeaderKey\<close>: a key with a byte that is not a token byte is
  returned as it is; otherwise the first letter and every letter after a hyphen are upper
  case and all other letters lower case.
\<close>

definition validHeaderFieldByte :: "char \<Rightarrow> bool" where
  "validHeaderFieldByte c =
     (is_digit c \<or> is_lower c \<or> is_upper c \<or>
      c \<in> set [CHR ''!'', CHR ''#'', CHR ''$'', CHR ''%'', CHR ''&'', CHR 0x27, CHR ''*'',
                 CHR ''+'', CHR ''-'', CHR ''.'', CHR ''^'', CHR ''_'', CHR 0x60, CHR ''|'',
                 CHR ''~''])"

fun canon_bytes :: "bool \<Rightarrow> string \<Rightarrow> string" where
  "canon_bytes upper [] = []"
| "canon_bytes upper (c # cs) =
     (let c' = (if upper then toUpper_byte c else toLower_byte c)
      in c' # canon_bytes (c' = CHR ''-'') cs)"

definition CanonicalMIMEHeaderKey :: "string \<Rightarrow> string" where
  "CanonicalMIMEHeaderKey s =
     (if list_all validHeaderFieldByte s then canon_bytes True s else s)"

definition h_values :: "header \<Rightarrow> string \<Rightarrow> string list" where
  "h_values h k = (case map_of h k of None \<Rightarrow> [] | Some vs \<Rightarrow> vs)"

definition h_Get :: "header \<Rightarrow> string \<Rightarrow> string" where
  "h_Get h key = (case h_values h (CanonicalMIMEHeaderKey key) of [] \<Rightarrow> [] | v # _ \<Rightarrow> v)"

definition h_Set :: "header \<Rightarrow> string \<Rightarrow> string \<Rightarrow> header" where
  "h_Set h key v = AList.update (CanonicalMIMEHeaderKey key) [v] h"

definition h_Add :: "header \<Rightarrow> string \<Rightarrow> string \<Rightarrow> header" where
  "h_Add h key v =
     (let k = CanonicalMIMEHeaderKey key in AList.update k (h_values h k @ [v]) h)"

definition h_Del :: "header \<Rightarrow> string \<Rightarrow> header" where
  "h_Del h key = AList.delete (CanonicalMIMEHeaderKey key) h"

section \<open>Data model\<close>

record Config =
  Port :: string
  OpenAIBaseURL :: string
  OpenAIAPIKey :: string
  LogRequests :: bool
  LogResponses :: bool
  LogToStdout :: bool
  RequestLogFile :: string

text \<open>
  \<open>RequestLogger\<close>: \<open>LogFile_open\<close> stands for \<open>LogFile != nil\<close>; the logger's own
  \<open>LogToStdout\<close> field is \<open>Logger_LogToStdout\<close>, since \<open>Config\<close> has a field of that name.
\<close>

record RequestLogger =
  LogFile_open :: bool
  LogToFile :: bool
  Logger_LogToStdout :: bool

record ProxyServer =
  Config :: Config
  Logger :: RequestLogger

text \<open>
  The inbound \<open>*http.Request\<close>, with the fields the handler reads. \<open>Body\<close> is \<open>None\<close> for a
  nil body, and otherwise what \<open>io.ReadAll(r.Body)\<close> returns: \<open>Inr\<close> the bytes, or \<open>Inl\<close> the
  error. The header map is not nil (net/http hands the handler an allocated map).
\<close>

record Request =
  Method :: string
  URL_Path :: string
  URL_RawQuery :: string
  Proto :: string
  Header :: header
  Body :: "(string + string) option"

text \<open>The request built by \<open>http.NewRequest\<close> and handed to \<open>client.Do\<close>.\<close>

record OutRequest =
  out_Method :: string
  out_URL :: string
  out_Header :: header
  out_Body :: string

text \<open>
  The body of the upstream response is a reader: the segments in which the bytes arrive and
  how the stream ends. \<open>body_Read n\<close> is one \<open>Read\<close> into a buffer of \<open>n\<close> bytes: at most
  \<open>n\<close> bytes of the first segment, and the end of the stream once no segment is left (a
  reader that returns its last bytes together with \<open>io.EOF\<close> is observed by the loops below
  exactly as one that returns them first and \<open>io.EOF\<close> on the next call). The 120 second
  timeout of the client bounds the reads, so the stream is finite.
\<close>

datatype read_end = EOF | ReadError string

type_synonym body_stream = "string list \<times> read_end"

definition body_Read :: "nat \<Rightarrow> body_stream \<Rightarrow> string \<times> read_end option \<times> body_stream" where
  "body_Read n b =
     (case b of (segs, fin) \<Rightarrow>
        (case segs of
           [] \<Rightarrow> ([], Some fin, ([], fin))
         | seg # rest \<Rightarrow>
             if length seg \<le> n then (seg, None, (rest, fin))
             else (take n seg, None, (drop n seg # rest, fin))))"

fun body_size :: "body_stream \<Rightarrow> nat" where
  "body_size (segs, fin) = sum_list (map (\<lambda>seg. Suc (length seg)) segs)"

definition io_ReadAll :: "body_stream \<Rightarrow> string + string" where
  "io_ReadAll b =
     (case snd b of EOF \<Rightarrow> Inr (concat (fst b)) | ReadError msg \<Rightarrow> Inl msg)"

record Response =
  resp_Proto :: string
  Status :: string
  StatusCode :: int
  resp_Header :: header
  resp_Body :: body_stream

text \<open>
  \<open>time.Now()\<close> as the code observes it: the value of \<open>UnixNano()\<close> and the text of
  \<open>Format(time.RFC3339)\<close>. \<open>UnixNano\<close> is an \<open>int64\<close> that the code only prints, so
  it is an \<^typ>\<open>int\<close> here.
\<close>

record Time =
  UnixNano :: int
  RFC3339 :: string

text \<open>
  What the handler does not decide: the clock (\<open>now k\<close> is the value of the \<open>k\<close>-th call of
  \<open>time.Now\<close>), whether \<open>http.NewRequest\<close> accepts the method and the target URL, and what
  \<open>client.Do\<close> returns for an outbound request (\<open>Inl\<close> a transport error).
\<close>

record env =
  now :: "nat \<Rightarrow> Time"
  NewRequest_err :: "string \<Rightarrow> string \<Rightarrow> string option"
  client_Do :: "OutRequest \<Rightarrow> string + Response"

text \<open>
  Everything the handler writes to apart from the client: the number of clock reads so far,
  the \<open>Write\<close> calls on the log file and on standard output (oldest first), the messages of
  \<open>log.Printf\<close>, and the requests handed to \<open>client.Do\<close>.
\<close>

record world =
  now_calls :: nat
  log_file :: "string list"
  stdout :: "string list"
  stderr_log :: "string list"
  dispatched :: "OutRequest list"

definition time_Now :: "env \<Rightarrow> world \<Rightarrow> Time \<times> world" where
  "time_Now e wd = (now e (now_calls wd), wd\<lparr>now_calls := Suc (now_calls wd)\<rparr>)"

definition log_Printf :: "string \<Rightarrow> world \<Rightarrow> world" where
  "log_Printf msg wd = wd\<lparr>stderr_log := stderr_log wd @ [msg]\<rparr>"

section \<open>The response writer (http.ResponseWriter)\<close>

text \<open>
  The writer follows the contract of \<open>http.ResponseWriter\<close>: the first \<open>WriteHeader\<close> commits
  the status and the header map as it is then, a later one is ignored, and a \<open>Write\<close>
  before any \<open>WriteHeader\<close> commits status 200 first. What the client sees is
  \<open>w_status\<close>, \<open>w_sent_header\<close> and \<open>w_body\<close>. \<open>w_room\<close> is the number of body bytes the
  connection still takes (\<open>None\<close>: it stays open); a \<open>Write\<close> beyond it delivers what fits
  and fails. \<open>is_Flusher\<close> is the result of the type assertion \<open>w.(http.Flusher)\<close>.
\<close>

record ResponseWriter =
  w_Header :: header
  wroteHeader :: bool
  w_status :: int
  w_sent_header :: header
  w_body :: string
  w_flushes :: nat
  w_room :: "nat option"
  is_Flusher :: bool

definition NewResponseWriter :: "bool \<Rightarrow> nat option \<Rightarrow> ResponseWriter" where
  "NewResponseWriter flusher room =
     \<lparr>w_Header = [], wroteHeader = False, w_status = 0, w_sent_header = [], w_body = [],
      w_flushes = 0, w_room = room, is_Flusher = flusher\<rparr>"

definition client_view :: "ResponseWriter \<Rightarrow> int \<times> header \<times> string" where
  "client_view w = (w_status w, w_sent_header w, w_body w)"

definition w_WriteHeader :: "int \<Rightarrow> ResponseWriter \<Rightarrow> ResponseWriter" where
  "w_WriteHeader code w =
     (if wroteHeader w then w
      else w\<lparr>wroteHeader := True, w_status := code, w_sent_header := w_Header w\<rparr>)"

definition w_Write :: "string \<Rightarrow> ResponseWriter \<Rightarrow> bool \<times> ResponseWriter" where
  "w_Write p w =
     (let w1 = (if wroteHeader w then w else w_WriteHeader 200 w)
      in case w_room w1 of
           None \<Rightarrow> (True, w1\<lparr>w_body := w_body w1 @ p\<rparr>)
         | Some k \<Rightarrow>
             if length p \<le> k
             then (True, w1\<lparr>w_body := w_body w1 @ p, w_room := Some (k - length p)\<rparr>)
             else (False, w1\<lparr>w_body := w_body w1 @ take k p, w_room := Some 0\<rparr>))"

definition w_Flush :: "ResponseWriter \<Rightarrow> ResponseWriter" where
  "w_Flush w = w\<lparr>w_flushes := Suc (w_flushes w)\<rparr>"

text \<open>
  \<open>http.Error\<close>: drops \<open>Content-Length\<close>, sets the two headers of a plain-text error, calls
  \<open>WriteHeader(code)\<close> and writes the message and a newline.
\<close>

definition http_Error :: "string \<Rightarrow> int \<Rightarrow> ResponseWriter \<Rightarrow> ResponseWriter" where
  "http_Error msg code w =
     (let h1 = h_Del (w_Header w) ''Content-Length'';
          h2 = h_Set h1 ''Content-Type'' ''text/plain; charset=utf-8'';
          h3 = h_Set h2 ''X-Content-Type-Options'' ''nosniff'';
          w1 = w_WriteHeader code (w\<lparr>w_Header := h3\<rparr>)
      in snd (w_Write (msg @ nl) w1))"

section \<open>The traffic recorder: LogRequest and LogResponse\<close>

text \<open>
  \<open>NewRequestLogger\<close> and \<open>NewProxyServer\<close>; \<open>open_err\<close> is the error of \<open>os.OpenFile\<close>,
  if it returns one.
\<close>

definition NewRequestLogger :: "string \<Rightarrow> bool \<Rightarrow> string option \<Rightarrow> string + RequestLogger" where
  "NewRequestLogger logFile logToStdout open_err =
     (if logFile \<noteq> [] then
        (case open_err of
           Some err \<Rightarrow> Inl (''failed to open log file: '' @ err)
         | None \<Rightarrow> Inr \<lparr>LogFile_open = True, LogToFile = True, Logger_LogToStdout = logToStdout\<rparr>)
      else Inr \<lparr>LogFile_open = False, LogToFile = False, Logger_LogToStdout = logToStdout\<rparr>)"

definition NewProxyServer :: "Config \<Rightarrow> string option \<Rightarrow> string + ProxyServer" where
  "NewProxyServer config open_err =
     (case NewRequestLogger (RequestLogFile config) (LogToStdout config) open_err of
        Inl err \<Rightarrow> Inl err
      | Inr logger \<Rightarrow> Inr \<lparr>Config = config, Logger = logger\<rparr>)"

definition request_header_lines :: "string \<times> string list \<Rightarrow> string" where
  "request_header_lines nv =
     (case nv of (name, values) \<Rightarrow>
        if strings_ToLower name = ''authorization''
        then ''  '' @ name @ '': Bearer [REDACTED]'' @ nl
        else concat (map (\<lambda>value. ''  '' @ name @ '': '' @ value @ nl) values))"

definition response_header_lines :: "string \<times> string list \<Rightarrow> string" where
  "response_header_lines nv =
     (case nv of (name, values) \<Rightarrow>
        concat (map (\<lambda>value. ''  '' @ name @ '': '' @ value @ nl) values))"

text \<open>The contents of \<open>buf\<close> at the end of \<open>LogRequest\<close>.\<close>

definition format_request :: "string \<Rightarrow> string \<Rightarrow> Request \<Rightarrow> string \<Rightarrow> string" where
  "format_request reqID timestamp r body =
     ''==== REQUEST ['' @ reqID @ ''] '' @ timestamp @ '' ===='' @ nl @
     Method r @ '' '' @ URL_Path r @ '' '' @ Proto r @ nl @
     ''Headers:'' @ nl @
     concat (map request_header_lines (Header r)) @
     (if length body > 0 then ''Body:'' @ nl @ body @ nl else [])"

definition maxBodySize :: nat where
  "maxBodySize = 10000"

text \<open>The contents of \<open>buf\<close> at the end of \<open>LogResponse\<close>.\<close>

definition format_response :: "string \<Rightarrow> string \<Rightarrow> Response \<Rightarrow> string \<Rightarrow> string" where
  "format_response reqID timestamp resp body =
     ''==== RESPONSE ['' @ reqID @ ''] '' @ timestamp @ '' ===='' @ nl @
     resp_Proto resp @ '' '' @ Status resp @ nl @
     ''Headers:'' @ nl @
     concat (map response_header_lines (resp_Header resp)) @
     (if length body > 0 then
        (let bodyToLog = (if length body > maxBodySize then take maxBodySize body else body)
         in (if length body > maxBodySize
             then ''Body (truncated to '' @ fmt_d (int maxBodySize) @ '' bytes):'' @ nl
             else ''Body:'' @ nl) @
            bodyToLog @ nl @
            (if length body > maxBodySize
             then ''... ['' @ fmt_d (int (length body) - int maxBodySize) @ '' more bytes]'' @ nl
             else []))
      else [])"

text \<open>
  The two writes that end both functions: \<open>fmt.Fprintln(l.LogFile, logData)\<close> and
  \<open>fmt.Print(logData)\<close>, one \<open>Write\<close> call each; their errors are dropped.
\<close>

definition write_sinks :: "RequestLogger \<Rightarrow> string \<Rightarrow> world \<Rightarrow> world" where
  "write_sinks l logData wd =
     (let wd1 = (if LogToFile l \<and> LogFile_open l
                 then wd\<lparr>log_file := log_file wd @ [logData @ nl]\<rparr> else wd)
      in if Logger_LogToStdout l then wd1\<lparr>stdout := stdout wd1 @ [logData]\<rparr> else wd1)"

definition LogRequest :: "env \<Rightarrow> RequestLogger \<Rightarrow> Request \<Rightarrow> string \<Rightarrow> world \<Rightarrow> world" where
  "LogRequest e l r body wd =
     (case time_Now e wd of (t, wd1) \<Rightarrow>
        (case (if h_Get (Header r) ''X-Request-ID'' = []
               then (case time_Now e wd1 of (t2, wd2) \<Rightarrow> (''req-'' @ fmt_d (UnixNano t2), wd2))
               else (h_Get (Header r) ''X-Request-ID'', wd1)) of
           (reqID, wd3) \<Rightarrow> write_sinks l (format_request reqID (RFC3339 t) r body) wd3))"

definition LogResponse :: "env \<Rightarrow> RequestLogger \<Rightarrow> string \<Rightarrow> Response \<Rightarrow> string \<Rightarrow> world \<Rightarrow> world" where
  "LogResponse e l reqID resp body wd =
     (case time_Now e wd of (t, wd1) \<Rightarrow>
        write_sinks l (format_response reqID (RFC3339 t) resp body) wd1)"

section \<open>The relay handler: ServeHTTP\<close>

text \<open>
  Lines 179 to 183: the correlation id is the inbound \<open>X-Request-ID\<close>, or is made from the
  clock and stored in the request's header map.
\<close>

definition assign_request_id :: "env \<Rightarrow> Request \<Rightarrow> world \<Rightarrow> string \<times> Request \<times> world" where
  "assign_request_id e r wd =
     (if h_Get (Header r) ''X-Request-ID'' = []
      then (case time_Now e wd of (t, wd1) \<Rightarrow>
              (let reqID = ''req-'' @ fmt_d (UnixNano t)
               in (reqID, r\<lparr>Header := h_Set (Header r) ''X-Request-ID'' reqID\<rparr>, wd1)))
      else (h_Get (Header r) ''X-Request-ID'', r, wd))"

text \<open>Lines 217 to 224: every header but \<open>Host\<close> is added to the outbound request.\<close>

definition copy_request_headers :: "header \<Rightarrow> header \<Rightarrow> header" where
  "copy_request_headers src dst =
     foldl (\<lambda>d (name, values).
              if strings_ToLower name = ''host'' then d
              else foldl (\<lambda>d' value. h_Add d' name value) d values) dst src"

text \<open>Lines 245 to 249: every upstream header is added to the writer's header map.\<close>

definition copy_response_headers :: "header \<Rightarrow> header \<Rightarrow> header" where
  "copy_response_headers src dst =
     foldl (\<lambda>d (name, values). foldl (\<lambda>d' value. h_Add d' name value) d values) dst src"

text \<open>
  Lines 266 to 284: the streaming loop. Each round reads into the 4096 byte buffer; a
  non-empty chunk is written, flushed and logged; a failed write ends the loop, and so does
  the end of the stream, an error other than \<open>io.EOF\<close> being reported by \<open>log.Printf\<close>
  (the message of a failed write is kept without the text of the connection's error).
\<close>

function stream_loop ::
  "env \<Rightarrow> RequestLogger \<Rightarrow> string \<Rightarrow> Response \<Rightarrow> body_stream \<Rightarrow> ResponseWriter \<times> world
   \<Rightarrow> ResponseWriter \<times> world" where
  "stream_loop e l reqID resp b (w, wd) =
     (case body_Read 4096 b of (chunk, err, b') \<Rightarrow>
        (case (if length chunk > 0 then
                 (case w_Write chunk w of (ok, w') \<Rightarrow>
                    if \<not> ok then (True, w', log_Printf ''Error writing response chunk'' wd)
                    else (False, w_Flush w', LogResponse e l reqID resp chunk wd))
               else (False, w, wd)) of
           (stop, w1, wd1) \<Rightarrow>
             if stop then (w1, wd1)
             else (case err of
                     Some x \<Rightarrow>
                       (w1, (case x of
                               EOF \<Rightarrow> wd1
                             | ReadError msg \<Rightarrow>
                                 log_Printf (''Error reading response body: '' @ msg) wd1))
                   | None \<Rightarrow> stream_loop e l reqID resp b' (w1, wd1))))"
  by pat_completeness auto
termination
  by (relation "measure (\<lambda>(e, l, reqID, resp, b, st). body_size b)")
     (auto simp: body_Read_def split: prod.splits list.splits if_splits)

declare stream_loop.simps [simp del]

text \<open>
  \<open>io.Copy(w, resp.Body)\<close>: the same loop with the 32 KiB buffer of the io package and
  nothing but the write.
\<close>

function io_Copy :: "body_stream \<Rightarrow> ResponseWriter \<Rightarrow> ResponseWriter" where
  "io_Copy b w =
     (case body_Read 32768 b of (chunk, err, b') \<Rightarrow>
        (case (if length chunk > 0 then (case w_Write chunk w of (ok, w') \<Rightarrow> (\<not> ok, w'))
               else (False, w)) of
           (stop, w1) \<Rightarrow>
             if stop then w1
             else (case err of Some x \<Rightarrow> w1 | None \<Rightarrow> io_Copy b' w1)))"
  by pat_completeness auto
termination
  by (relation "measure (\<lambda>(b, w). body_size b)")
     (auto simp: body_Read_def split: prod.splits list.splits if_splits)

declare io_Copy.simps [simp del]

definition isStreaming :: "Response \<Rightarrow> bool" where
  "isStreaming resp =
     strings_Contains (h_Get (resp_Header resp) ''Content-Type'') ''text/event-stream''"

text \<open>Lines 244 to 302: the response is relayed to the client.\<close>

definition relay_response ::
  "env \<Rightarrow> ProxyServer \<Rightarrow> string \<Rightarrow> Response \<Rightarrow> ResponseWriter \<Rightarrow> world
   \<Rightarrow> ResponseWriter \<times> world" where
  "relay_response e s reqID resp w wd =
     (let w1 = w\<lparr>w_Header := copy_response_headers (resp_Header resp) (w_Header w)\<rparr>;
          w2 = w_WriteHeader (StatusCode resp) w1
      in if isStreaming resp then
           (if LogResponses (Config s) then
              (if \<not> is_Flusher w2 then (http_Error ''Streaming not supported'' 500 w2, wd)
               else stream_loop e (Logger s) reqID resp (resp_Body resp) (w2, wd))
            else (io_Copy (resp_Body resp) w2, wd))
         else
           (case io_ReadAll (resp_Body resp) of
              Inl err \<Rightarrow>
                (http_Error ''Error reading response from OpenAI API'' 500 w2,
                 log_Printf (''Error reading response body: '' @ err) wd)
            | Inr responseBody \<Rightarrow>
                (snd (w_Write responseBody w2),
                 (if LogResponses (Config s)
                  then LogResponse e (Logger s) reqID resp responseBody wd else wd))))"

text \<open>
  Lines 199 to 242: the request is logged, the outbound request is built (target URL,
  copied headers, credential) and handed to the client.
\<close>

definition build_header :: "ProxyServer \<Rightarrow> Request \<Rightarrow> header" where
  "build_header s r =
     (let h = copy_request_headers (Header r) []
      in if h_Get h ''Authorization'' = [] \<and> OpenAIAPIKey (Config s) \<noteq> []
         then h_Set h ''Authorization'' (''Bearer '' @ OpenAIAPIKey (Config s))
         else h)"

definition target_url :: "ProxyServer \<Rightarrow> Request \<Rightarrow> string" where
  "target_url s r =
     OpenAIBaseURL (Config s) @ URL_Path r @
     (if URL_RawQuery r \<noteq> [] then ''?'' @ URL_RawQuery r else [])"

definition proxy_request :: "ProxyServer \<Rightarrow> Request \<Rightarrow> string \<Rightarrow> OutRequest" where
  "proxy_request s r bodyBytes =
     \<lparr>out_Method = Method r, out_URL = target_url s r, out_Header = build_header s r,
      out_Body = bodyBytes\<rparr>"

definition forward ::
  "env \<Rightarrow> ProxyServer \<Rightarrow> string \<Rightarrow> Request \<Rightarrow> string \<Rightarrow> ResponseWriter \<Rightarrow> world
   \<Rightarrow> ResponseWriter \<times> world" where
  "forward e s reqID r bodyBytes w wd =
     (let wd1 = (if LogRequests (Config s) then LogRequest e (Logger s) r bodyBytes wd else wd)
      in case NewRequest_err e (Method r) (target_url s r) of
           Some err \<Rightarrow> (http_Error (''Error creating proxy request: '' @ err) 500 w, wd1)
         | None \<Rightarrow>
             (let proxyReq = proxy_request s r bodyBytes;
                  wd2 = wd1\<lparr>dispatched := dispatched wd1 @ [proxyReq]\<rparr>
              in case client_Do e proxyReq of
                   Inl err \<Rightarrow>
                     (http_Error (''Error forwarding request to OpenAI API: '' @ err) 502 w, wd2)
                 | Inr resp \<Rightarrow> relay_response e s reqID resp w wd2))"

text \<open>
  \<open>ServeHTTP\<close>: the correlation id, the read of the body (lines 186 to 197), then the rest.
  Closing the bodies and putting a fresh reader over the bytes in \<open>r.Body\<close> change nothing
  that the model records, and are left out.
\<close>

definition ServeHTTP ::
  "env \<Rightarrow> ProxyServer \<Rightarrow> ResponseWriter \<Rightarrow> Request \<Rightarrow> world \<Rightarrow> ResponseWriter \<times> world" where
  "ServeHTTP e s w r0 wd0 =
     (case assign_request_id e r0 wd0 of (reqID, r, wd) \<Rightarrow>
        (case Body r of
           None \<Rightarrow> forward e s reqID r [] w wd
         | Some (Inl err) \<Rightarrow> (http_Error ''Error reading request body'' 500 w, wd)
         | Some (Inr bodyBytes) \<Rightarrow> forward e s reqID r bodyBytes w wd))"

section \<open>Notions used in the statements\<close>

text \<open>What a connection with \<open>room\<close> takes of the bytes \<open>p\<close>.\<close>

definition accepted :: "nat option \<Rightarrow> string \<Rightarrow> string" where
  "accepted room p = (case room of None \<Rightarrow> p | Some k \<Rightarrow> take k p)"


text \<open>
  Helpers for the statements: the first value of a list of header values (empty when there
  is none, as \<open>Header.Get\<close> has it), the values a header map holds under the names whose
  canonical form is \<open>K\<close>, in iteration order, and the body the handler has read.
\<close>

definition first_value :: "string list \<Rightarrow> string" where
  "first_value vs = (case vs of [] \<Rightarrow> [] | v # _ \<Rightarrow> v)"

definition values_of :: "header \<Rightarrow> string \<Rightarrow> string list" where
  "values_of h K =
     concat (map snd (filter (\<lambda>(name, vs). CanonicalMIMEHeaderKey name = K) h))"

definition request_body :: "Request \<Rightarrow> string" where
  "request_body r = (case Body r of Some (Inr bodyBytes) \<Rightarrow> bodyBytes | _ \<Rightarrow> [])"

text \<open>
  A log record is tagged with a correlation id when it starts with the delimiter line of
  a request or of a response record for that id. \<open>request_id\<close> is the id \<open>ServeHTTP\<close>
  settles on; \<open>logged\<close> says that a world extends another by tagged records only.
\<close>

definition tagged :: "string \<Rightarrow> string \<Rightarrow> bool" where
  "tagged reqID x =
     (prefix (''==== REQUEST ['' @ reqID @ ''] '') x \<or>
      prefix (''==== RESPONSE ['' @ reqID @ ''] '') x)"

definition request_id :: "env \<Rightarrow> Request \<Rightarrow> world \<Rightarrow> string" where
  "request_id e r wd = fst (assign_request_id e r wd)"

definition logged :: "string \<Rightarrow> world \<Rightarrow> world \<Rightarrow> bool" where
  "logged reqID wd wd' =
     (\<exists>recs frecs. stdout wd' = stdout wd @ recs \<and> log_file wd' = log_file wd @ frecs \<and>
        list_all (tagged reqID) recs \<and> list_all (tagged reqID) frecs)"




text \<open>The server with its two logging toggles set.\<close>

definition set_logging :: "bool \<Rightarrow> bool \<Rightarrow> ProxyServer \<Rightarrow> ProxyServer" where
  "set_logging logRequests logResponses s =
     s\<lparr>Config := (Config s)\<lparr>LogRequests := logRequests, LogResponses := logResponses\<rparr>\<rparr>"

section \<open>Example transactions\<close>

definition world0 :: world where
  "world0 = \<lparr>now_calls = 0, log_file = [], stdout = [], stderr_log = [], dispatched = []\<rparr>"

definition ex_time :: Time where
  "ex_time = \<lparr>UnixNano = 1700000000000000000, RFC3339 = ''2023-11-14T22:13:20Z''\<rparr>"

definition ex_env :: "Response \<Rightarrow> env" where
  "ex_env resp =
     \<lparr>now = (\<lambda>k. ex_time), NewRequest_err = (\<lambda>m u. None), client_Do = (\<lambda>q. Inr resp)\<rparr>"

definition ex_server :: "bool \<Rightarrow> bool \<Rightarrow> ProxyServer" where
  "ex_server logRequests logResponses =
     \<lparr>Config = \<lparr>Port = ''8080'', OpenAIBaseURL = ''https://api.openai.com/v1'',
                 OpenAIAPIKey = ''sk-proxy'', LogRequests = logRequests,
                 LogResponses = logResponses, LogToStdout = True,
                 RequestLogFile = ''proxy.log''\<rparr>,
      Logger = \<lparr>LogFile_open = True, LogToFile = True, Logger_LogToStdout = True\<rparr>\<rparr>"

definition ex_request :: "header \<Rightarrow> Request" where
  "ex_request h =
     \<lparr>Method = ''POST'', URL_Path = ''/chat/completions'', URL_RawQuery = [],
      Proto = ''HTTP/1.1'', Header = h, Body = Some (Inr ''{}'')\<rparr>"

definition ex_response :: "string \<Rightarrow> string list \<Rightarrow> Response" where
  "ex_response contentType segs =
     \<lparr>resp_Proto = ''HTTP/1.1'', Status = ''200 OK'', StatusCode = 200,
      resp_Header = [(''Content-Type'', [contentType])], resp_Body = (segs, EOF)\<rparr>"

section \<open>Evaluation helpers\<close>


lemmas run_defs =
  ServeHTTP_def assign_request_id_def forward_def relay_response_def proxy_request_def
  target_url_def build_header_def copy_request_headers_def copy_response_headers_def
  isStreaming_def io_ReadAll_def LogRequest_def LogResponse_def write_sinks_def
  format_request_def format_response_def request_header_lines_def response_header_lines_def
  time_Now_def log_Printf_def http_Error_def w_Write_def w_WriteHeader_def w_Flush_def
  NewResponseWriter_def h_Get_def h_Set_def h_Add_def h_Del_def h_values_def maxBodySize_def
  world0_def ex_env_def ex_server_def ex_request_def ex_response_def ex_time_def
  strings_ToLower_def toLower_byte_def upper_letters_def lower_letters_def Let_def

lemma canon_X_Request_ID [simp]: "CanonicalMIMEHeaderKey ''X-Request-ID'' = ''X-Request-Id''"
  by code_simp

lemma canon_X_Request_Id [simp]: "CanonicalMIMEHeaderKey ''X-Request-Id'' = ''X-Request-Id''"
  by code_simp

lemma canon_Authorization [simp]: "CanonicalMIMEHeaderKey ''Authorization'' = ''Authorization''"
  by code_simp

lemma canon_Content_Type [simp]: "CanonicalMIMEHeaderKey ''Content-Type'' = ''Content-Type''"
  by code_simp

lemma canon_Content_Length [simp]:
  "CanonicalMIMEHeaderKey ''Content-Length'' = ''Content-Length''"
  by code_simp

lemma canon_X_Content_Type_Options [simp]:
  "CanonicalMIMEHeaderKey ''X-Content-Type-Options'' = ''X-Content-Type-Options''"
  by code_simp

section \<open>The writer\<close>

lemma http_Error_fresh:
  "w_status (http_Error msg code (NewResponseWriter f room)) = code \<and>
   w_body (http_Error msg code (NewResponseWriter f room)) = accepted room (msg @ nl)"
  by (simp add: http_Error_def w_WriteHeader_def w_Write_def NewResponseWriter_def
      accepted_def Let_def split: option.splits)

lemma assign_request_id_Body: "assign_request_id e r wd = (reqID, r', wd') \<Longrightarrow> Body r' = Body r"
  by (auto simp: assign_request_id_def time_Now_def Let_def split: if_splits prod.splits)

lemma assign_request_id_world:
  "assign_request_id e r wd = (reqID, r', wd') \<Longrightarrow>
   dispatched wd' = dispatched wd \<and> log_file wd' = log_file wd \<and> stdout wd' = stdout wd"
  by (auto simp: assign_request_id_def time_Now_def Let_def split: if_splits prod.splits)

text \<open>
  C7. When reading the inbound body fails, the client gets status 500 with the message
  \<open>Error reading request body\<close> (as much of it as the connection takes), nothing is handed to
  \<open>client.Do\<close>, and no log record is written.
\<close>

theorem C7_body_read_failure:
  assumes "Body r = Some (Inl err)"
  shows "w_status (fst (ServeHTTP e s (NewResponseWriter f room) r wd)) = 500 \<and>
         w_body (fst (ServeHTTP e s (NewResponseWriter f room) r wd))
           = accepted room (''Error reading request body'' @ nl) \<and>
         dispatched (snd (ServeHTTP e s (NewResponseWriter f room) r wd)) = dispatched wd \<and>
         log_file (snd (ServeHTTP e s (NewResponseWriter f room) r wd)) = log_file wd \<and>
         stdout (snd (ServeHTTP e s (NewResponseWriter f room) r wd)) = stdout wd"
proof -
  obtain reqID r' wd' where a: "assign_request_id e r wd = (reqID, r', wd')"
    by (cases "assign_request_id e r wd") auto
  have b: "Body r' = Some (Inl err)"
    using assign_request_id_Body [OF a] assms by simp
  have c: "ServeHTTP e s (NewResponseWriter f room) r wd
             = (http_Error ''Error reading request body'' 500 (NewResponseWriter f room), wd')"
    by (simp add: ServeHTTP_def a b)
  show ?thesis
    using assign_request_id_world [OF a] by (simp add: c http_Error_fresh)
qed

theorem C7_body_read_failure_witness:
  "w_status (fst (ServeHTTP
      \<lparr>now = (\<lambda>k. \<lparr>UnixNano = 17, RFC3339 = ''T''\<rparr>), NewRequest_err = (\<lambda>m u. None),
       client_Do = (\<lambda>q. Inl ''down'')\<rparr>
      \<lparr>Config = \<lparr>Port = ''8080'', OpenAIBaseURL = ''http://up'', OpenAIAPIKey = ''k'',
                 LogRequests = True, LogResponses = True, LogToStdout = True,
                 RequestLogFile = ''''\<rparr>,
       Logger = \<lparr>LogFile_open = False, LogToFile = False, Logger_LogToStdout = True\<rparr>\<rparr>
      (NewResponseWriter True None)
      \<lparr>Method = ''POST'', URL_Path = ''/chat'', URL_RawQuery = '''', Proto = ''HTTP/1.1'',
       Header = [], Body = Some (Inl ''unexpected EOF'')\<rparr>
      world0)) = 500"
  by (simp add: C7_body_read_failure [where err = "''unexpected EOF''"])

section \<open>The recorder\<close>











text \<open>
  C8. \<open>LogRequest\<close> on a logger with both sinks, for a request with the body \<open>{}\<close>: the
  write on the file ends with an empty line, the write on standard output ends with the
  body's own line and no empty line after it; and so does the write of \<open>LogResponse\<close>
  on standard output.
\<close>

theorem C8_console_record_without_blank_line:
  "log_file (LogRequest (ex_env (ex_response ''application/json'' [])) (Logger (ex_server True True))
       (ex_request [(''X-Request-Id'', [''abc''])]) ''{}'' world0)
     = [''==== REQUEST [abc] 2023-11-14T22:13:20Z ===='' @ nl @
        ''POST /chat/completions HTTP/1.1'' @ nl @ ''Headers:'' @ nl @
        ''  X-Request-Id: abc'' @ nl @ ''Body:'' @ nl @ ''{}'' @ nl @ nl] \<and>
   stdout (LogRequest (ex_env (ex_response ''application/json'' [])) (Logger (ex_server True True))
       (ex_request [(''X-Request-Id'', [''abc''])]) ''{}'' world0)
     = [''==== REQUEST [abc] 2023-11-14T22:13:20Z ===='' @ nl @
        ''POST /chat/completions HTTP/1.1'' @ nl @ ''Headers:'' @ nl @
        ''  X-Request-Id: abc'' @ nl @ ''Body:'' @ nl @ ''{}'' @ nl] \<and>
   \<not> suffix (nl @ nl)
       (last (stdout (LogRequest (ex_env (ex_response ''application/json'' []))
          (Logger (ex_server True True)) (ex_request [(''X-Request-Id'', [''abc''])]) ''{}'' world0))) \<and>
   stdout (LogResponse (ex_env (ex_response ''application/json'' [])) (Logger (ex_server True True))
       ''abc'' (ex_response ''application/json'' []) ''{}'' world0)
     = [''==== RESPONSE [abc] 2023-11-14T22:13:20Z ===='' @ nl @
        ''HTTP/1.1 200 OK'' @ nl @ ''Headers:'' @ nl @
        ''  Content-Type: application/json'' @ nl @ ''Body:'' @ nl @ ''{}'' @ nl] \<and>
   \<not> suffix (nl @ nl)
       (last (stdout (LogResponse (ex_env (ex_response ''application/json'' []))
          (Logger (ex_server True True)) ''abc'' (ex_response ''application/json'' []) ''{}''
          world0)))"
  by (simp add: LogRequest_def LogResponse_def time_Now_def world0_def ex_env_def ex_server_def
      ex_request_def ex_response_def ex_time_def h_Get_def h_values_def write_sinks_def
      format_request_def format_response_def request_header_lines_def
      response_header_lines_def maxBodySize_def strings_ToLower_def toLower_byte_def
      upper_letters_def lower_letters_def nl_def suffix_to_prefix)

section \<open>Header maps\<close>

lemma length_canon_bytes: "length (canon_bytes u s) = length s"
  by (induction s arbitrary: u) (simp_all add: Let_def)

lemma length_CanonicalMIMEHeaderKey: "length (CanonicalMIMEHeaderKey s) = length s"
  by (simp add: CanonicalMIMEHeaderKey_def length_canon_bytes)

lemma length_strings_ToLower: "length (strings_ToLower s) = length s"
  by (simp add: strings_ToLower_def)

lemma canonical_not_host:
  assumes "CanonicalMIMEHeaderKey name = K" and "length K \<noteq> 4"
  shows "strings_ToLower name \<noteq> ''host''"
proof
  assume "strings_ToLower name = ''host''"
  then have "length (strings_ToLower name) = 4" by simp
  then have "length name = 4" by (simp add: length_strings_ToLower)
  moreover have "length K = length name"
    using assms(1) length_CanonicalMIMEHeaderKey [of name] by simp
  ultimately show False using assms(2) by simp
qed

lemma h_values_update:
  "h_values (AList.update k vs h) K = (if k = K then vs else h_values h K)"
  by (simp add: h_values_def update_conv')

lemma h_values_h_Add:
  "h_values (h_Add h name v) K
     = (if CanonicalMIMEHeaderKey name = K then h_values h K @ [v] else h_values h K)"
  by (simp add: h_Add_def Let_def h_values_update)

lemma h_values_h_Set:
  "h_values (h_Set h key v) K = (if CanonicalMIMEHeaderKey key = K then [v] else h_values h K)"
  by (simp add: h_Set_def h_values_update)

lemma h_Get_first_value: "h_Get h key = first_value (h_values h (CanonicalMIMEHeaderKey key))"
  by (simp add: h_Get_def first_value_def)

lemma h_values_add_all:
  "h_values (foldl (\<lambda>d value. h_Add d name value) d vs) K
     = (if CanonicalMIMEHeaderKey name = K then h_values d K @ vs else h_values d K)"
  by (induction vs arbitrary: d) (simp_all add: h_values_h_Add)

lemma h_values_copy_request_headers:
  assumes "length K \<noteq> 4"
  shows "h_values (copy_request_headers src dst) K = h_values dst K @ values_of src K"
  unfolding copy_request_headers_def values_of_def
proof (induction src arbitrary: dst)
  case Nil
  show ?case by simp
next
  case (Cons nv src)
  obtain name vs where nv: "nv = (name, vs)" by (cases nv)
  show ?case
  proof (cases "CanonicalMIMEHeaderKey name = K")
    case True
    then have "strings_ToLower name \<noteq> ''host''"
      using canonical_not_host assms by blast
    then show ?thesis
      using True by (simp add: nv Cons.IH h_values_add_all)
  next
    case False
    then show ?thesis
      by (simp add: nv Cons.IH h_values_add_all)
  qed
qed

lemma values_of_Nil: "values_of [] K = []"
  by (simp add: values_of_def)

lemma values_of_Cons:
  "values_of ((name, vs) # h) K
     = (if CanonicalMIMEHeaderKey name = K then vs @ values_of h K else values_of h K)"
  by (simp add: values_of_def)

lemma values_of_update_other:
  "CanonicalMIMEHeaderKey k \<noteq> K \<Longrightarrow> values_of (AList.update k vs h) K = values_of h K"
  by (induction h) (auto simp: values_of_Nil values_of_Cons)

lemma values_of_update_member:
  "CanonicalMIMEHeaderKey K = K \<Longrightarrow> v \<in> set (values_of (AList.update K [v] h) K)"
  by (induction h) (auto simp: values_of_Nil values_of_Cons)

lemma values_of_update_fresh:
  "CanonicalMIMEHeaderKey K = K \<Longrightarrow> values_of h K = [] \<Longrightarrow>
   values_of (AList.update K [v] h) K = [v]"
  by (induction h) (auto simp: values_of_Nil values_of_Cons split: if_splits)

lemma values_of_update_changes:
  assumes "CanonicalMIMEHeaderKey K = K" and "first_value (h_values h K) = []" and "v \<noteq> []"
  shows "values_of (AList.update K [v] h) K \<noteq> values_of h K"
  using assms(2)
proof (induction h)
  case Nil
  show ?case by (simp add: values_of_Nil values_of_Cons assms(1))
next
  case (Cons nv h)
  obtain name vs where nv: "nv = (name, vs)" by (cases nv)
  show ?case
  proof (cases "name = K")
    case True
    with Cons.prems have "first_value vs = []"
      by (simp add: nv h_values_def)
    then have "vs \<noteq> [v]"
      using assms(3) by (auto simp: first_value_def)
    then show ?thesis
      using True assms(1) by (simp add: nv values_of_Cons)
  next
    case False
    with Cons.prems have "first_value (h_values h K) = []"
      by (simp add: nv h_values_def)
    then have "values_of (AList.update K [v] h) K \<noteq> values_of h K"
      by (rule Cons.IH)
    then show ?thesis
      using False by (simp add: nv values_of_Cons)
  qed
qed
section \<open>What the handler leaves alone\<close>

lemma write_sinks_frame:
  "dispatched (write_sinks l d wd) = dispatched wd \<and> now_calls (write_sinks l d wd) = now_calls wd"
  by (simp add: write_sinks_def Let_def)

lemma LogRequest_dispatched: "dispatched (LogRequest e l r body wd) = dispatched wd"
  by (simp add: LogRequest_def time_Now_def write_sinks_frame split: prod.splits)

lemma LogResponse_dispatched: "dispatched (LogResponse e l reqID resp body wd) = dispatched wd"
  by (simp add: LogResponse_def time_Now_def write_sinks_frame split: prod.splits)

lemma log_Printf_dispatched: "dispatched (log_Printf msg wd) = dispatched wd"
  by (simp add: log_Printf_def)

lemma body_Read_None:
  assumes "body_Read n b = (chunk, None, b')" and "0 < n"
  shows "body_size b' < body_size b" and "concat (fst b) = chunk @ concat (fst b')"
    and "snd b' = snd b"
  using assms
  by (auto simp: body_Read_def split: prod.splits list.splits if_splits)

lemma body_Read_Some:
  assumes "body_Read n b = (chunk, Some x, b')"
  shows "chunk = []" and "fst b = []" and "x = snd b"
  using assms
  by (auto simp: body_Read_def split: prod.splits list.splits if_splits)

lemma stream_loop_end:
  assumes "body_Read 4096 b = (chunk, Some x, b')"
  shows "stream_loop e l reqID resp b (w, wd) =
    (w, (case x of EOF \<Rightarrow> wd
         | ReadError msg \<Rightarrow> log_Printf (''Error reading response body: '' @ msg) wd))"
  using body_Read_Some(1) [OF assms]
  by (subst stream_loop.simps) (simp add: assms)

lemma stream_loop_step:
  assumes "body_Read 4096 b = (chunk, None, b')"
  shows "stream_loop e l reqID resp b (w, wd) =
    (if chunk = [] then stream_loop e l reqID resp b' (w, wd)
     else if \<not> fst (w_Write chunk w)
     then (snd (w_Write chunk w), log_Printf ''Error writing response chunk'' wd)
     else stream_loop e l reqID resp b'
            (w_Flush (snd (w_Write chunk w)), LogResponse e l reqID resp chunk wd))"
  by (subst stream_loop.simps) (simp add: assms split: prod.splits)

lemma io_Copy_end:
  assumes "body_Read 32768 b = (chunk, Some x, b')"
  shows "io_Copy b w = w"
  using body_Read_Some(1) [OF assms]
  by (subst io_Copy.simps) (simp add: assms)

lemma io_Copy_step:
  assumes "body_Read 32768 b = (chunk, None, b')"
  shows "io_Copy b w =
    (if chunk = [] then io_Copy b' w
     else if \<not> fst (w_Write chunk w) then snd (w_Write chunk w)
     else io_Copy b' (snd (w_Write chunk w)))"
  by (subst io_Copy.simps) (simp add: assms split: prod.splits)

lemma stream_loop_dispatched:
  "dispatched (snd (stream_loop e l reqID resp b (w, wd))) = dispatched wd"
proof (induction b arbitrary: w wd rule: measure_induct_rule [where f = body_size])
  case (less b)
  obtain chunk err b' where rd: "body_Read 4096 b = (chunk, err, b')"
    by (metis prod_cases3)
  show ?case
  proof (cases err)
    case None
    then have "body_size b' < body_size b"
      using rd body_Read_None(1) by simp
    then have IH: "\<And>w wd. dispatched (snd (stream_loop e l reqID resp b' (w, wd))) = dispatched wd"
      by (rule less.IH)
    show ?thesis
      using rd None
      by (simp add: stream_loop_step IH LogResponse_dispatched log_Printf_dispatched)
  next
    case (Some x)
    then show ?thesis
      using rd
      by (simp add: stream_loop_end log_Printf_dispatched split: read_end.splits)
  qed
qed

lemma relay_response_dispatched:
  "dispatched (snd (relay_response e s reqID resp w wd)) = dispatched wd"
  by (simp add: relay_response_def Let_def stream_loop_dispatched LogResponse_dispatched
      log_Printf_dispatched split: sum.splits)

lemma assign_request_id_fields:
  "assign_request_id e r wd = (reqID, r', wd') \<Longrightarrow>
   Method r' = Method r \<and> URL_Path r' = URL_Path r \<and> URL_RawQuery r' = URL_RawQuery r \<and>
   Proto r' = Proto r \<and> Body r' = Body r"
  by (auto simp: assign_request_id_def time_Now_def Let_def split: if_splits prod.splits)

lemma target_url_assign:
  "assign_request_id e r wd = (reqID, r', wd') \<Longrightarrow> target_url s r' = target_url s r"
  by (simp add: target_url_def assign_request_id_fields)

lemma forward_dispatched:
  assumes "NewRequest_err e (Method r) (target_url s r) = None"
  shows "dispatched (snd (forward e s reqID r bodyBytes w wd))
           = dispatched wd @ [proxy_request s r bodyBytes]"
  using assms
  by (simp add: forward_def Let_def relay_response_dispatched LogRequest_dispatched
      split: sum.splits)

lemma ServeHTTP_dispatched:
  assumes "\<forall>err. Body r0 \<noteq> Some (Inl err)"
    and "NewRequest_err e (Method r0) (target_url s r0) = None"
  shows "dispatched (snd (ServeHTTP e s w r0 wd0))
           = dispatched wd0 @
             [proxy_request s (fst (snd (assign_request_id e r0 wd0))) (request_body r0)]"
proof -
  obtain reqID r wd where a: "assign_request_id e r0 wd0 = (reqID, r, wd)"
    by (cases "assign_request_id e r0 wd0") auto
  have f: "Method r = Method r0" "Body r = Body r0" "target_url s r = target_url s r0"
    using assign_request_id_fields [OF a] target_url_assign [OF a] by simp_all
  have n: "NewRequest_err e (Method r) (target_url s r) = None"
    using assms(2) f by simp
  have d: "dispatched wd = dispatched wd0"
    using assign_request_id_world [OF a] by simp
  show ?thesis
  proof (cases "Body r0")
    case None
    then show ?thesis
      by (simp add: ServeHTTP_def a f forward_dispatched [OF n] d request_body_def)
  next
    case (Some x)
    then obtain bodyBytes where "x = Inr bodyBytes"
      using assms(1) by (cases x) auto
    with Some show ?thesis
      by (simp add: ServeHTTP_def a f forward_dispatched [OF n] d request_body_def)
  qed
qed
section \<open>The outbound request\<close>

lemma h_values_build_header:
  assumes "length K \<noteq> 4"
  shows "h_values (build_header s r) K =
    (if first_value (values_of (Header r) ''Authorization'') = [] \<and> OpenAIAPIKey (Config s) \<noteq> []
        \<and> K = ''Authorization''
     then [''Bearer '' @ OpenAIAPIKey (Config s)] else values_of (Header r) K)"
proof -
  have a: "h_values (copy_request_headers (Header r) []) ''Authorization''
             = values_of (Header r) ''Authorization''"
    by (simp add: h_values_copy_request_headers) (simp add: h_values_def)
  have k: "h_values (copy_request_headers (Header r) []) K = values_of (Header r) K"
    using assms by (simp add: h_values_copy_request_headers) (simp add: h_values_def)
  show ?thesis
    by (simp add: build_header_def Let_def h_Get_first_value a k h_values_h_Set)
qed

lemma assign_request_id_values_of:
  assumes "assign_request_id e rq wi = (reqID, r, wd)" and "K \<noteq> ''X-Request-Id''"
  shows "values_of (Header r) K = values_of (Header rq) K"
  using assms
  by (auto simp: assign_request_id_def time_Now_def Let_def h_Set_def values_of_update_other
      split: if_splits prod.splits)

lemma assign_request_id_synthesized:
  assumes "h_Get (Header rq) ''X-Request-ID'' = []"
  shows "assign_request_id e rq wi =
    (''req-'' @ fmt_d (UnixNano (now e (now_calls wi))),
     rq\<lparr>Header := AList.update ''X-Request-Id''
                      [''req-'' @ fmt_d (UnixNano (now e (now_calls wi)))] (Header rq)\<rparr>,
     wi\<lparr>now_calls := Suc (now_calls wi)\<rparr>)"
  using assms by (simp add: assign_request_id_def time_Now_def Let_def h_Set_def)

lemma outbound_Authorization:
  assumes "\<forall>err. Body rq \<noteq> Some (Inl err)"
    and "NewRequest_err e (Method rq) (target_url s rq) = None"
  shows "\<exists>q. dispatched (snd (ServeHTTP e s w rq wi)) = dispatched wi @ [q] \<and>
     h_values (out_Header q) ''Authorization'' =
       (if first_value (values_of (Header rq) ''Authorization'') = [] \<and>
           OpenAIAPIKey (Config s) \<noteq> []
        then [''Bearer '' @ OpenAIAPIKey (Config s)]
        else values_of (Header rq) ''Authorization'')"
proof -
  obtain reqID r wd where a: "assign_request_id e rq wi = (reqID, r, wd)"
    by (cases "assign_request_id e rq wi") auto
  have v: "values_of (Header r) ''Authorization'' = values_of (Header rq) ''Authorization''"
    by (rule assign_request_id_values_of [OF a]) simp
  have "h_values (out_Header (proxy_request s r (request_body rq))) ''Authorization'' =
       (if first_value (values_of (Header rq) ''Authorization'') = [] \<and>
           OpenAIAPIKey (Config s) \<noteq> []
        then [''Bearer '' @ OpenAIAPIKey (Config s)]
        else values_of (Header rq) ''Authorization'')"
    by (simp add: proxy_request_def h_values_build_header v)
  then show ?thesis
    using ServeHTTP_dispatched [OF assms, of w wi] a by simp
qed

text \<open>
  C1, as the code has it. When the body is read and \<open>http.NewRequest\<close> accepts, exactly one
  request is handed to \<open>client.Do\<close>. Its Authorization values are \<open>Bearer\<close> and the
  configured credential alone when the credential is not empty and the inbound request
  has no Authorization value or an empty first one; otherwise they are the inbound
  Authorization values, unchanged.
\<close>

theorem C1_authorization_injection:
  assumes "\<forall>err. Body rq \<noteq> Some (Inl err)"
    and "NewRequest_err e (Method rq) (target_url s rq) = None"
  shows "\<exists>q. dispatched (snd (ServeHTTP e s w rq wi)) = dispatched wi @ [q] \<and>
     h_values (out_Header q) ''Authorization'' =
       (if first_value (values_of (Header rq) ''Authorization'') = [] \<and>
           OpenAIAPIKey (Config s) \<noteq> []
        then [''Bearer '' @ OpenAIAPIKey (Config s)]
        else values_of (Header rq) ''Authorization'')"
  using assms by (rule outbound_Authorization)

theorem C1_authorization_injection_witness:
  "\<exists>q. dispatched (snd (ServeHTTP (ex_env (ex_response ''application/json'' [''{}'']))
            (ex_server True True) (NewResponseWriter True None)
            (ex_request [(''Authorization'', [''Bearer user-token''])]) world0)) = [q] \<and>
        h_values (out_Header q) ''Authorization'' = [''Bearer user-token'']"
  using C1_authorization_injection
    [where e = "ex_env (ex_response ''application/json'' [''{}''])" and s = "ex_server True True"
       and rq = "ex_request [(''Authorization'', [''Bearer user-token''])]"
       and w = "NewResponseWriter True None" and wi = world0]
  by (simp add: ex_env_def ex_request_def world0_def values_of_def first_value_def)

text \<open>
  An inbound request with two Authorization values, the first of them empty: the credential
  of the proxy is injected and the caller's own value is not forwarded.
\<close>

theorem C1_empty_first_value_counterexample:
  "map_of (Header (ex_request [(''Authorization'', ['''', ''Bearer user-token''])])) ''Authorization''
     = Some ['''', ''Bearer user-token''] \<and>
   (\<exists>q. dispatched (snd (ServeHTTP (ex_env (ex_response ''application/json'' [''{}'']))
            (ex_server True True) (NewResponseWriter True None)
            (ex_request [(''Authorization'', ['''', ''Bearer user-token''])]) world0)) = [q] \<and>
        h_values (out_Header q) ''Authorization'' = [''Bearer sk-proxy''])"
  using outbound_Authorization
    [where e = "ex_env (ex_response ''application/json'' [''{}''])" and s = "ex_server True True"
       and rq = "ex_request [(''Authorization'', ['''', ''Bearer user-token''])]"
       and w = "NewResponseWriter True None" and wi = world0]
  by (simp add: ex_env_def ex_request_def ex_server_def world0_def values_of_def first_value_def)

text \<open>
  C10. When \<open>Get("X-Request-ID")\<close> is empty on the inbound request, the request handed
  to \<open>client.Do\<close> carries the synthesized id among its \<open>X-Request-Id\<close> values; these differ
  from the inbound ones, and are the synthesized id alone when the inbound request has no
  such value under any spelling of the name.
\<close>

theorem C10_synthesized_request_id_forwarded:
  assumes "h_Get (Header rq) ''X-Request-ID'' = []"
    and "\<forall>err. Body rq \<noteq> Some (Inl err)"
    and "NewRequest_err e (Method rq) (target_url s rq) = None"
  shows "\<exists>q. dispatched (snd (ServeHTTP e s w rq wi)) = dispatched wi @ [q] \<and>
     ''req-'' @ fmt_d (UnixNano (now e (now_calls wi)))
        \<in> set (h_values (out_Header q) ''X-Request-Id'') \<and>
     h_values (out_Header q) ''X-Request-Id'' \<noteq> values_of (Header rq) ''X-Request-Id'' \<and>
     (values_of (Header rq) ''X-Request-Id'' = [] \<longrightarrow>
        h_values (out_Header q) ''X-Request-Id''
          = [''req-'' @ fmt_d (UnixNano (now e (now_calls wi)))])"
proof -
  let ?rid = "''req-'' @ fmt_d (UnixNano (now e (now_calls wi)))"
  let ?r = "rq\<lparr>Header := AList.update ''X-Request-Id'' [?rid] (Header rq)\<rparr>"
  let ?q = "proxy_request s ?r (request_body rq)"
  have a: "fst (snd (assign_request_id e rq wi)) = ?r"
    by (simp add: assign_request_id_synthesized [OF assms(1)])
  have d: "dispatched (snd (ServeHTTP e s w rq wi)) = dispatched wi @ [?q]"
    using ServeHTTP_dispatched [OF assms(2,3), of w wi] a by simp
  have h: "h_values (out_Header ?q) ''X-Request-Id''
             = values_of (AList.update ''X-Request-Id'' [?rid] (Header rq)) ''X-Request-Id''"
    by (simp add: proxy_request_def h_values_build_header)
  have g: "first_value (h_values (Header rq) ''X-Request-Id'') = []"
    using assms(1) by (simp add: h_Get_first_value)
  have 1: "?rid \<in> set (h_values (out_Header ?q) ''X-Request-Id'')"
    unfolding h by (rule values_of_update_member) simp
  have 2: "h_values (out_Header ?q) ''X-Request-Id'' \<noteq> values_of (Header rq) ''X-Request-Id''"
    unfolding h by (rule values_of_update_changes [OF _ g]) simp_all
  have 3: "values_of (Header rq) ''X-Request-Id'' = [] \<Longrightarrow>
           h_values (out_Header ?q) ''X-Request-Id'' = [?rid]"
    unfolding h by (rule values_of_update_fresh) simp_all
  show ?thesis
    using d 1 2 3 by blast
qed

theorem C10_synthesized_request_id_forwarded_witness:
  "\<exists>q. dispatched (snd (ServeHTTP (ex_env (ex_response ''application/json'' [''{}'']))
            (ex_server True True) (NewResponseWriter True None)
            (ex_request [(''Content-Type'', [''application/json''])]) world0)) = [q] \<and>
        h_values (out_Header q) ''X-Request-Id'' = [''req-1700000000000000000'']"
proof -
  let ?e = "ex_env (ex_response ''application/json'' [''{}''])"
  let ?rq = "ex_request [(''Content-Type'', [''application/json''])]"
  have g: "h_Get (Header ?rq) ''X-Request-ID'' = []"
    by (simp add: ex_request_def h_Get_def h_values_def)
  have b: "\<forall>err. Body ?rq \<noteq> Some (Inl err)"
    by (simp add: ex_request_def)
  have n: "NewRequest_err ?e (Method ?rq) (target_url (ex_server True True) ?rq) = None"
    by (simp add: ex_env_def)
  have v: "values_of (Header ?rq) ''X-Request-Id'' = []"
    by (simp add: ex_request_def values_of_def)
  have t: "''req-'' @ fmt_d (UnixNano (now ?e (now_calls world0))) = ''req-1700000000000000000''"
    by (simp add: ex_env_def ex_time_def fmt_d_def digits.simps digit_char_def)
  show ?thesis
    using C10_synthesized_request_id_forwarded
      [OF g b n, of "NewResponseWriter True None" world0] v
    unfolding t by (auto simp: world0_def)
qed

section \<open>The correlation id\<close>

lemma logged_same:
  "stdout wd' = stdout wd \<Longrightarrow> log_file wd' = log_file wd \<Longrightarrow> logged reqID wd wd'"
  by (simp add: logged_def)

lemma logged_trans:
  assumes "logged reqID wd1 wd2" and "logged reqID wd2 wd3"
  shows "logged reqID wd1 wd3"
proof -
  obtain r1 f1 where 1: "stdout wd2 = stdout wd1 @ r1" "log_file wd2 = log_file wd1 @ f1"
    "list_all (tagged reqID) r1" "list_all (tagged reqID) f1"
    using assms(1) by (auto simp: logged_def)
  obtain r2 f2 where 2: "stdout wd3 = stdout wd2 @ r2" "log_file wd3 = log_file wd2 @ f2"
    "list_all (tagged reqID) r2" "list_all (tagged reqID) f2"
    using assms(2) by (auto simp: logged_def)
  have "stdout wd3 = stdout wd1 @ (r1 @ r2)" "log_file wd3 = log_file wd1 @ (f1 @ f2)"
    "list_all (tagged reqID) (r1 @ r2)" "list_all (tagged reqID) (f1 @ f2)"
    using 1 2 by simp_all
  then show ?thesis
    unfolding logged_def by blast
qed

lemma write_sinks_logged:
  assumes "tagged reqID d"
  shows "logged reqID wd (write_sinks l d wd)"
proof -
  have t: "tagged reqID (d @ nl)"
    using assms by (auto simp: tagged_def intro: prefix_prefix)
  show ?thesis
    unfolding logged_def write_sinks_def Let_def
    using assms t by (auto intro: exI [of _ "[]"])
qed

lemma tagged_format_request: "tagged reqID (format_request reqID ts r body)"
  by (simp add: tagged_def format_request_def)

lemma tagged_format_response: "tagged reqID (format_response reqID ts resp body)"
  by (simp add: tagged_def format_response_def)

lemma time_Now_logs:
  "time_Now e wd = (t, wd') \<Longrightarrow> stdout wd' = stdout wd \<and> log_file wd' = log_file wd"
  by (auto simp: time_Now_def)

lemma LogResponse_logged: "logged reqID wd (LogResponse e l reqID resp body wd)"
proof -
  obtain t wd1 where n: "time_Now e wd = (t, wd1)"
    by (cases "time_Now e wd") auto
  have "logged reqID wd wd1"
    using time_Now_logs [OF n] by (simp add: logged_same)
  moreover have "logged reqID wd1 (write_sinks l (format_response reqID (RFC3339 t) resp body) wd1)"
    by (rule write_sinks_logged) (rule tagged_format_response)
  ultimately show ?thesis
    by (simp add: LogResponse_def n logged_trans)
qed

lemma LogRequest_logged:
  assumes "h_Get (Header r) ''X-Request-ID'' = reqID" and "reqID \<noteq> []"
  shows "logged reqID wd (LogRequest e l r body wd)"
proof -
  obtain t wd1 where n: "time_Now e wd = (t, wd1)"
    by (cases "time_Now e wd") auto
  have "logged reqID wd wd1"
    using time_Now_logs [OF n] by (simp add: logged_same)
  moreover have "logged reqID wd1 (write_sinks l (format_request reqID (RFC3339 t) r body) wd1)"
    by (rule write_sinks_logged) (rule tagged_format_request)
  ultimately show ?thesis
    using assms by (simp add: LogRequest_def n logged_trans)
qed

lemma log_Printf_logged: "logged reqID wd (log_Printf msg wd)"
  by (simp add: logged_same log_Printf_def)

lemma stream_loop_logged:
  "logged reqID wd0 wd \<Longrightarrow> logged reqID wd0 (snd (stream_loop e l reqID resp b (w, wd)))"
proof (induction b arbitrary: w wd rule: measure_induct_rule [where f = body_size])
  case (less b)
  obtain chunk err b' where rd: "body_Read 4096 b = (chunk, err, b')"
    by (metis prod_cases3)
  have p: "\<And>msg. logged reqID wd0 (log_Printf msg wd)"
    using less.prems log_Printf_logged logged_trans by blast
  show ?case
  proof (cases err)
    case None
    then have "body_size b' < body_size b"
      using rd body_Read_None(1) by simp
    then have IH: "\<And>w wd. logged reqID wd0 wd \<Longrightarrow>
        logged reqID wd0 (snd (stream_loop e l reqID resp b' (w, wd)))"
      by (rule less.IH)
    have "logged reqID wd0 (LogResponse e l reqID resp chunk wd)"
      using less.prems LogResponse_logged logged_trans by blast
    then show ?thesis
      using rd None less.prems by (simp add: stream_loop_step IH p)
  next
    case (Some x)
    then show ?thesis
      using rd less.prems by (simp add: stream_loop_end p split: read_end.splits)
  qed
qed

lemma relay_response_logged:
  "logged reqID wd (snd (relay_response e s reqID resp w wd))"
  by (simp add: relay_response_def Let_def stream_loop_logged logged_same LogResponse_logged
      log_Printf_logged split: sum.splits)

lemma assign_request_id_Get:
  assumes "assign_request_id e rq wi = (reqID, r, wd)"
  shows "h_Get (Header r) ''X-Request-ID'' = reqID" and "reqID \<noteq> []"
  using assms
  by (auto simp: assign_request_id_def time_Now_def Let_def h_Get_first_value h_values_h_Set
      first_value_def split: if_splits)

lemma forward_logged:
  assumes "h_Get (Header r) ''X-Request-ID'' = reqID" and "reqID \<noteq> []"
  shows "logged reqID wd (snd (forward e s reqID r bodyBytes w wd))"
proof -
  define wd1 where
    "wd1 = (if LogRequests (Config s) then LogRequest e (Logger s) r bodyBytes wd else wd)"
  have eq: "forward e s reqID r bodyBytes w wd =
     (case NewRequest_err e (Method r) (target_url s r) of
        Some err \<Rightarrow> (http_Error (''Error creating proxy request: '' @ err) 500 w, wd1)
      | None \<Rightarrow>
          (case client_Do e (proxy_request s r bodyBytes) of
             Inl err \<Rightarrow>
               (http_Error (''Error forwarding request to OpenAI API: '' @ err) 502 w,
                wd1\<lparr>dispatched := dispatched wd1 @ [proxy_request s r bodyBytes]\<rparr>)
           | Inr resp \<Rightarrow>
               relay_response e s reqID resp w
                 (wd1\<lparr>dispatched := dispatched wd1 @ [proxy_request s r bodyBytes]\<rparr>)))"
    by (simp add: forward_def wd1_def Let_def split: option.splits sum.splits)
  have 1: "logged reqID wd wd1"
    using LogRequest_logged [OF assms] by (simp add: wd1_def logged_same)
  have 2: "\<And>q. logged reqID wd (wd1\<lparr>dispatched := dispatched wd1 @ [q]\<rparr>)"
    by (rule logged_trans [OF 1]) (simp add: logged_same)
  have 3: "\<And>q resp. logged reqID wd
      (snd (relay_response e s reqID resp w (wd1\<lparr>dispatched := dispatched wd1 @ [q]\<rparr>)))"
    by (rule logged_trans [OF 2]) (rule relay_response_logged)
  show ?thesis
    unfolding eq using 1 2 3 by (simp split: option.splits sum.splits)
qed

lemma ServeHTTP_logged: "logged (request_id e rq wi) wi (snd (ServeHTTP e s w rq wi))"
proof -
  obtain reqID r wd where a: "assign_request_id e rq wi = (reqID, r, wd)"
    by (cases "assign_request_id e rq wi") auto
  have 0: "logged reqID wi wd"
    using assign_request_id_world [OF a] by (simp add: logged_same)
  have "\<And>bodyBytes. logged reqID wi (snd (forward e s reqID r bodyBytes w wd))"
    by (rule logged_trans [OF 0]) (rule forward_logged [OF assign_request_id_Get [OF a]])
  then show ?thesis
    using 0 by (simp add: ServeHTTP_def request_id_def a split: option.splits sum.splits)
qed

text \<open>
  C2. Whatever \<open>ServeHTTP\<close> writes on standard output and on the log file during one
  transaction are records that start with the delimiter line of a request or of a response
  carrying one and the same id, and this id is the inbound \<open>X-Request-ID\<close> when
  \<open>Get\<close> finds a non-empty one.
\<close>

theorem C2_one_correlation_id:
  "(\<exists>recs frecs.
      stdout (snd (ServeHTTP e s w rq wi)) = stdout wi @ recs \<and>
      log_file (snd (ServeHTTP e s w rq wi)) = log_file wi @ frecs \<and>
      (\<forall>x \<in> set recs \<union> set frecs.
         prefix (''==== REQUEST ['' @ request_id e rq wi @ ''] '') x \<or>
         prefix (''==== RESPONSE ['' @ request_id e rq wi @ ''] '') x)) \<and>
   (h_Get (Header rq) ''X-Request-ID'' \<noteq> [] \<longrightarrow>
      request_id e rq wi = h_Get (Header rq) ''X-Request-ID'')"
proof
  obtain recs frecs where
    "stdout (snd (ServeHTTP e s w rq wi)) = stdout wi @ recs"
    "log_file (snd (ServeHTTP e s w rq wi)) = log_file wi @ frecs"
    "list_all (tagged (request_id e rq wi)) recs" "list_all (tagged (request_id e rq wi)) frecs"
    using ServeHTTP_logged [of e rq wi s w] unfolding logged_def by blast
  then show "\<exists>recs frecs.
      stdout (snd (ServeHTTP e s w rq wi)) = stdout wi @ recs \<and>
      log_file (snd (ServeHTTP e s w rq wi)) = log_file wi @ frecs \<and>
      (\<forall>x \<in> set recs \<union> set frecs.
         prefix (''==== REQUEST ['' @ request_id e rq wi @ ''] '') x \<or>
         prefix (''==== RESPONSE ['' @ request_id e rq wi @ ''] '') x)"
    unfolding list_all_iff tagged_def by blast
next
  show "h_Get (Header rq) ''X-Request-ID'' \<noteq> [] \<longrightarrow>
      request_id e rq wi = h_Get (Header rq) ''X-Request-ID''"
    by (simp add: request_id_def assign_request_id_def)
qed
theorem C2_one_correlation_id_witness:
  "length (stdout (snd (ServeHTTP (ex_env (ex_response ''application/json'' [''{}'']))
       (ex_server True True) (NewResponseWriter True None)
       (ex_request [(''X-Request-Id'', [''abc''])]) world0))) = 2 \<and>
   list_all (\<lambda>x. prefix ''==== REQUEST [abc] '' x \<or> prefix ''==== RESPONSE [abc] '' x)
     (stdout (snd (ServeHTTP (ex_env (ex_response ''application/json'' [''{}'']))
       (ex_server True True) (NewResponseWriter True None)
       (ex_request [(''X-Request-Id'', [''abc''])]) world0)))"
proof -
  let ?e = "ex_env (ex_response ''application/json'' [''{}''])"
  let ?rq = "ex_request [(''X-Request-Id'', [''abc''])]"
  have i: "request_id ?e ?rq world0 = ''abc''"
    by (simp add: request_id_def assign_request_id_def ex_request_def h_Get_def h_values_def)
  have n: "length (stdout (snd (ServeHTTP ?e (ex_server True True) (NewResponseWriter True None)
             ?rq world0))) = 2"
    by (simp add: run_defs)
  show ?thesis
    using C2_one_correlation_id
      [of ?e "ex_server True True" "NewResponseWriter True None" ?rq world0] n
    unfolding i by (auto simp: world0_def list_all_iff)
qed

section \<open>Buffered responses and the body section of a record\<close>










section \<open>Streamed responses\<close>

lemma w_Write_ok:
  assumes "wroteHeader w" and "fst (w_Write p w)"
  shows "wroteHeader (snd (w_Write p w))"
    and "w_status (snd (w_Write p w)) = w_status w"
    and "w_sent_header (snd (w_Write p w)) = w_sent_header w"
    and "w_body (snd (w_Write p w)) = w_body w @ p"
    and "p @ accepted (w_room (snd (w_Write p w))) rest = accepted (w_room w) (p @ rest)"
  using assms
  by (auto simp: w_Write_def accepted_def Let_def split: option.splits if_splits)

lemma w_Write_failed:
  assumes "wroteHeader w" and "\<not> fst (w_Write p w)"
  shows "w_status (snd (w_Write p w)) = w_status w"
    and "w_sent_header (snd (w_Write p w)) = w_sent_header w"
    and "w_body (snd (w_Write p w)) = w_body w @ accepted (w_room w) (p @ rest)"
  using assms
  by (auto simp: w_Write_def accepted_def Let_def split: option.splits if_splits)

lemma w_Flush_fields:
  "wroteHeader (w_Flush w) = wroteHeader w" "w_status (w_Flush w) = w_status w"
  "w_sent_header (w_Flush w) = w_sent_header w" "w_body (w_Flush w) = w_body w"
  "w_room (w_Flush w) = w_room w"
  by (simp_all add: w_Flush_def)

lemma accepted_Nil: "accepted room [] = []"
  by (simp add: accepted_def split: option.splits)

lemma stream_loop_view:
  assumes "wroteHeader w"
  shows "client_view (fst (stream_loop e l reqID resp b (w, wd)))
           = (w_status w, w_sent_header w, w_body w @ accepted (w_room w) (concat (fst b)))"
  using assms
proof (induction b arbitrary: w wd rule: measure_induct_rule [where f = body_size])
  case (less b)
  obtain chunk err b' where rd: "body_Read 4096 b = (chunk, err, b')"
    by (metis prod_cases3)
  show ?case
  proof (cases err)
    case (Some x)
    then have "fst b = []"
      using rd body_Read_Some(2) by simp
    then show ?thesis
      using rd Some by (simp add: stream_loop_end client_view_def accepted_Nil)
  next
    case None
    then have sz: "body_size b' < body_size b" and cc: "concat (fst b) = chunk @ concat (fst b')"
      using rd body_Read_None(1,2) by simp_all
    note IH = less.IH [OF sz]
    show ?thesis
    proof (cases "chunk = []")
      case True
      then show ?thesis
        using rd None by (simp add: stream_loop_step IH [OF less.prems] cc)
    next
      case False
      show ?thesis
      proof (cases "fst (w_Write chunk w)")
        case True
        let ?w = "w_Flush (snd (w_Write chunk w))"
        have h: "wroteHeader ?w"
          by (simp add: w_Flush_fields w_Write_ok(1) [OF less.prems True])
        have "client_view (fst (stream_loop e l reqID resp b'
                  (?w, LogResponse e l reqID resp chunk wd)))
              = (w_status w, w_sent_header w,
                 (w_body w @ chunk) @ accepted (w_room (snd (w_Write chunk w))) (concat (fst b')))"
          by (simp add: IH [OF h] w_Flush_fields w_Write_ok [OF less.prems True])
        also have "(w_body w @ chunk) @
                     accepted (w_room (snd (w_Write chunk w))) (concat (fst b'))
                   = w_body w @ accepted (w_room w) (concat (fst b))"
          by (simp add: cc w_Write_ok(5) [OF less.prems True])
        finally show ?thesis
          using rd None False True by (simp add: stream_loop_step)
      next
        case f: False
        show ?thesis
          using rd None False f
          by (simp add: stream_loop_step client_view_def cc
              w_Write_failed(1,2) [OF less.prems f]
              w_Write_failed(3) [OF less.prems f, of "concat (fst b')"])
      qed
    qed
  qed
qed

lemma io_Copy_view:
  assumes "wroteHeader w"
  shows "client_view (io_Copy b w)
           = (w_status w, w_sent_header w, w_body w @ accepted (w_room w) (concat (fst b)))"
  using assms
proof (induction b arbitrary: w rule: measure_induct_rule [where f = body_size])
  case (less b)
  obtain chunk err b' where rd: "body_Read 32768 b = (chunk, err, b')"
    by (metis prod_cases3)
  show ?case
  proof (cases err)
    case (Some x)
    then have "fst b = []"
      using rd body_Read_Some(2) by simp
    then show ?thesis
      using rd Some by (simp add: io_Copy_end client_view_def accepted_Nil)
  next
    case None
    then have sz: "body_size b' < body_size b" and cc: "concat (fst b) = chunk @ concat (fst b')"
      using rd body_Read_None(1,2) by simp_all
    note IH = less.IH [OF sz]
    show ?thesis
    proof (cases "chunk = []")
      case True
      then show ?thesis
        using rd None by (simp add: io_Copy_step IH [OF less.prems] cc)
    next
      case False
      show ?thesis
      proof (cases "fst (w_Write chunk w)")
        case True
        let ?w = "snd (w_Write chunk w)"
        have h: "wroteHeader ?w"
          by (simp add: w_Write_ok(1) [OF less.prems True])
        have "client_view (io_Copy b' ?w)
              = (w_status w, w_sent_header w,
                 (w_body w @ chunk) @ accepted (w_room ?w) (concat (fst b')))"
          by (simp add: IH [OF h] w_Write_ok [OF less.prems True])
        also have "(w_body w @ chunk) @ accepted (w_room ?w) (concat (fst b'))
                   = w_body w @ accepted (w_room w) (concat (fst b))"
          by (simp add: cc w_Write_ok(5) [OF less.prems True])
        finally show ?thesis
          using rd None False True by (simp add: io_Copy_step)
      next
        case f: False
        show ?thesis
          using rd None False f
          by (simp add: io_Copy_step client_view_def cc
              w_Write_failed(1,2) [OF less.prems f]
              w_Write_failed(3) [OF less.prems f, of "concat (fst b')"])
      qed
    qed
  qed
qed
lemma w_WriteHeader_fields:
  "wroteHeader (w_WriteHeader code w)" "is_Flusher (w_WriteHeader code w) = is_Flusher w"
  by (simp_all add: w_WriteHeader_def)

lemma relay_response_view:
  assumes "is_Flusher w \<or> \<not> isStreaming resp"
  shows "client_view (fst (relay_response e s reqID resp w wd)) =
    (let w2 = w_WriteHeader (StatusCode resp)
                (w\<lparr>w_Header := copy_response_headers (resp_Header resp) (w_Header w)\<rparr>)
     in if isStreaming resp
        then (w_status w2, w_sent_header w2,
              w_body w2 @ accepted (w_room w2) (concat (fst (resp_Body resp))))
        else client_view
               (case io_ReadAll (resp_Body resp) of
                  Inl err \<Rightarrow> http_Error ''Error reading response from OpenAI API'' 500 w2
                | Inr responseBody \<Rightarrow> snd (w_Write responseBody w2)))"
proof (cases "isStreaming resp")
  case True
  then have "is_Flusher w" using assms by simp
  then show ?thesis
    using True
    by (simp add: relay_response_def Let_def w_WriteHeader_fields stream_loop_view io_Copy_view)
next
  case False
  then show ?thesis
    by (simp add: relay_response_def Let_def split: sum.splits)
qed

lemma set_logging_Config:
  "OpenAIAPIKey (Config (set_logging a b s)) = OpenAIAPIKey (Config s)"
  "OpenAIBaseURL (Config (set_logging a b s)) = OpenAIBaseURL (Config s)"
  "LogRequests (Config (set_logging a b s)) = a"
  "LogResponses (Config (set_logging a b s)) = b"
  by (simp_all add: set_logging_def)

lemma set_logging_fields:
  "target_url (set_logging a b s) r = target_url s r"
  "proxy_request (set_logging a b s) r body = proxy_request s r body"
  by (simp_all add: target_url_def proxy_request_def build_header_def set_logging_Config
      Let_def cong: if_cong)

lemma forward_view:
  assumes "is_Flusher w \<or> (\<forall>q resp. client_Do e q = Inr resp \<longrightarrow> \<not> isStreaming resp)"
  shows "client_view (fst (forward e (set_logging a b s) reqID r body w wd)) =
         client_view (fst (forward e (set_logging a' b' s) reqID r body w wd))"
proof (cases "NewRequest_err e (Method r) (target_url s r)")
  case (Some err)
  then show ?thesis
    by (simp add: forward_def Let_def set_logging_fields set_logging_Config)
next
  case None
  show ?thesis
  proof (cases "client_Do e (proxy_request s r body)")
    case (Inl err)
    then show ?thesis
      using None by (simp add: forward_def Let_def set_logging_fields set_logging_Config)
  next
    case (Inr resp)
    then have "is_Flusher w \<or> \<not> isStreaming resp"
      using assms by blast
    then show ?thesis
      using None Inr
      by (simp add: forward_def Let_def set_logging_fields set_logging_Config
          relay_response_view)
  qed
qed

text \<open>
  C6, as the code has it. When the response writer supports flushing, or the upstream never
  answers with an event stream, the status, headers and body that the client sees are the
  same with both logging toggles off and with both on.
\<close>

theorem C6_logging_keeps_client_response:
  assumes "is_Flusher w \<or> (\<forall>q resp. client_Do e q = Inr resp \<longrightarrow> \<not> isStreaming resp)"
  shows "client_view (fst (ServeHTTP e (set_logging False False s) w rq wi)) =
         client_view (fst (ServeHTTP e (set_logging True True s) w rq wi))"
  using forward_view [OF assms]
  by (simp add: ServeHTTP_def split: prod.splits option.splits sum.splits)

theorem C6_logging_keeps_client_response_witness:
  "client_view (fst (ServeHTTP (ex_env (ex_response ''text/event-stream'' [''data: hi'']))
       (set_logging False False (ex_server True True)) (NewResponseWriter True None)
       (ex_request [(''X-Request-Id'', [''abc''])]) world0)) =
   client_view (fst (ServeHTTP (ex_env (ex_response ''text/event-stream'' [''data: hi'']))
       (set_logging True True (ex_server True True)) (NewResponseWriter True None)
       (ex_request [(''X-Request-Id'', [''abc''])]) world0))"
  by (rule C6_logging_keeps_client_response) (simp add: NewResponseWriter_def)

text \<open>
  An event stream relayed through a writer that cannot flush: with both toggles off the
  client gets the upstream body, with both on it gets the text of the error.
\<close>

theorem C6_not_a_flusher_counterexample:
  "client_view (fst (ServeHTTP (ex_env (ex_response ''text/event-stream'' [''data: hi'']))
       (set_logging False False (ex_server True True)) (NewResponseWriter False None)
       (ex_request [(''X-Request-Id'', [''abc''])]) world0)) \<noteq>
   client_view (fst (ServeHTTP (ex_env (ex_response ''text/event-stream'' [''data: hi'']))
       (set_logging True True (ex_server True True)) (NewResponseWriter False None)
       (ex_request [(''X-Request-Id'', [''abc''])]) world0))"
proof -
  let ?off = "fst (ServeHTTP (ex_env (ex_response ''text/event-stream'' [''data: hi'']))
       (set_logging False False (ex_server True True)) (NewResponseWriter False None)
       (ex_request [(''X-Request-Id'', [''abc''])]) world0)"
  let ?on = "fst (ServeHTTP (ex_env (ex_response ''text/event-stream'' [''data: hi'']))
       (set_logging True True (ex_server True True)) (NewResponseWriter False None)
       (ex_request [(''X-Request-Id'', [''abc''])]) world0)"
  have "?off = io_Copy ([''data: hi''], EOF)
      \<lparr>w_Header = [(''Content-Type'', [''text/event-stream''])], wroteHeader = True,
       w_status = 200, w_sent_header = [(''Content-Type'', [''text/event-stream''])],
       w_body = [], w_flushes = 0, w_room = None, is_Flusher = False\<rparr>"
    by (simp add: run_defs set_logging_def)
  then have "client_view ?off = (200, [(''Content-Type'', [''text/event-stream''])], ''data: hi'')"
    by (simp add: io_Copy_view accepted_def)
  moreover have "w_body ?on = ''Streaming not supported'' @ nl"
    by (simp add: run_defs set_logging_def)
  ultimately show ?thesis
    by (auto simp: client_view_def nl_def)
qed

text \<open>
  C5. An event stream, response logging on, a writer that cannot flush: the status and the
  headers of the upstream response are committed before the check, so the client gets
  status 200 and the content type of the stream, with the text of the error as the body.
\<close>

theorem C5_streaming_unsupported_after_commit:
  "client_view (fst (ServeHTTP (ex_env (ex_response ''text/event-stream'' [''data: hi'']))
       (ex_server True True) (NewResponseWriter False None)
       (ex_request [(''X-Request-Id'', [''abc''])]) world0)) =
   (200, [(''Content-Type'', [''text/event-stream''])], ''Streaming not supported'' @ nl)"
  by (simp add: run_defs client_view_def)

end
